theory Spec2Isabelle
  imports Complex_Main
begin

section \<open>The AluminatiAI energy-tracking client of examples/python_client.py\<close>

text \<open>
  The client is a class with one field, \<open>api_base_url\<close>, and three methods that each
  send HTTP requests through a \<open>requests.Session\<close>. The model keeps the control flow of
  the methods as written. What lies outside the file is a parameter:
  \<^item> the session is a function that answers the \<open>n\<close>-th call made through it, either by
    raising an exception or by returning a response object;
  \<^item> a response object is what its two methods used by the client do:
    \<open>raise_for_status()\<close> (returns, or raises) and \<open>json()\<close> (the parsed body, or raises);
  \<^item> the calls made and the seconds slept are recorded, in order, in a trace.
  Console output is not modelled; the exceptions that evaluating the printed expressions
  can raise are.
\<close>

subsection \<open>Values, exceptions, HTTP\<close>

text \<open>What \<open>response.json()\<close> can return, and what a request body is made of. A Python
  dict is an association list in insertion order (its keys are distinct); floats are only
  carried around and tested against zero, never computed with.\<close>

datatype jvalue =
    JNull
  | JBool bool
  | JInt int
  | JFloat real
  | JStr string
  | JArr "jvalue list"
  | JObj "(string \<times> jvalue) list"

text \<open>The exceptions of the model. The first four are subclasses of
  \<open>requests.exceptions.RequestException\<close>; the others are Python built-ins.\<close>

datatype exn =
    ConnectionError string
  | Timeout string
  | HTTPError nat
  | JSONDecodeError string
  | KeyError string
  | TypeError string
  | ValueError string
  | AttributeError string
  | OverflowError string

fun is_RequestException :: "exn \<Rightarrow> bool" where
  "is_RequestException (ConnectionError _) = True"
| "is_RequestException (Timeout _) = True"
| "is_RequestException (HTTPError _) = True"
| "is_RequestException (JSONDecodeError _) = True"
| "is_RequestException (KeyError _) = False"
| "is_RequestException (TypeError _) = False"
| "is_RequestException (ValueError _) = False"
| "is_RequestException (AttributeError _) = False"
| "is_RequestException (OverflowError _) = False"

datatype http_method = GET | POST | PATCH

record http_call =
  verb :: http_method
  url :: string
  json_body :: "jvalue option"
  timeout :: "int option"

record response =
  raise_for_status :: "exn option"
  json :: "exn + jvalue"

type_synonym reply = "exn + response"

text \<open>The session: the reply to a call, given how many calls were made before it.\<close>

type_synonym session = "nat \<Rightarrow> http_call \<Rightarrow> reply"

datatype event = HttpCall http_call | Sleep int

fun calls_of :: "event list \<Rightarrow> http_call list" where
  "calls_of [] = []"
| "calls_of (HttpCall c # tr) = c # calls_of tr"
| "calls_of (Sleep d # tr) = calls_of tr"

fun sleeps_of :: "event list \<Rightarrow> int list" where
  "sleeps_of [] = []"
| "sleeps_of (HttpCall c # tr) = sleeps_of tr"
| "sleeps_of (Sleep d # tr) = d # sleeps_of tr"

definition request :: "session \<Rightarrow> http_call \<Rightarrow> event list \<Rightarrow> reply \<times> event list" where
  "request s c tr = (s (length (calls_of tr)) c, tr @ [HttpCall c])"

subsection \<open>Python operations on parsed JSON\<close>

text \<open>\<open>v[key]\<close> with a string key.\<close>

fun subscript :: "jvalue \<Rightarrow> string \<Rightarrow> exn + jvalue" where
  "subscript (JObj kvs) key =
     (case map_of kvs key of None \<Rightarrow> Inl (KeyError key) | Some v \<Rightarrow> Inr v)"
| "subscript (JArr xs) key = Inl (TypeError ''list indices must be integers or slices, not str'')"
| "subscript (JStr s) key = Inl (TypeError ''string indices must be integers, not str'')"
| "subscript v key = Inl (TypeError ''object is not subscriptable'')"

text \<open>\<open>d.get(key)\<close> and \<open>d.get(key, default)\<close>; only a dict has the method.\<close>

fun get_method :: "jvalue \<Rightarrow> string \<Rightarrow> jvalue \<Rightarrow> exn + jvalue" where
  "get_method (JObj kvs) key dflt =
     (case map_of kvs key of None \<Rightarrow> Inr dflt | Some v \<Rightarrow> Inr v)"
| "get_method v key dflt = Inl (AttributeError ''object has no attribute get'')"

text \<open>Formatting with \<open>:.2f\<close>: a float formats; an int is converted to a float first,
  which overflows from \<open>2 ^ 1024 - 2 ^ 970\<close> on; a bool is an int; a string raises
  ValueError, anything else TypeError.\<close>

fun format_2f :: "jvalue \<Rightarrow> exn option" where
  "format_2f (JInt i) =
     (if \<bar>i\<bar> < 2 ^ 1024 - 2 ^ 970 then None
      else Some (OverflowError ''int too large to convert to float''))"
| "format_2f (JFloat x) = None"
| "format_2f (JBool b) = None"
| "format_2f (JStr s) = Some (ValueError ''Unknown format code f for object of type str'')"
| "format_2f v = Some (TypeError ''unsupported format string'')"

text \<open>Truth value of a parsed JSON value, as \<open>if v:\<close> tests it.\<close>

fun truthy :: "jvalue \<Rightarrow> bool" where
  "truthy JNull = False"
| "truthy (JBool b) = b"
| "truthy (JInt i) = (i \<noteq> 0)"
| "truthy (JFloat x) = (x \<noteq> 0)"
| "truthy (JStr s) = (s \<noteq> [])"
| "truthy (JArr xs) = (xs \<noteq> [])"
| "truthy (JObj kvs) = (kvs \<noteq> [])"

text \<open>\<open>v[:3]\<close>: lists and strings can be sliced; a dict takes the slice for a key and
  raises (TypeError up to Python 3.11, where a slice is unhashable).\<close>

fun slice3 :: "jvalue \<Rightarrow> exn + jvalue list" where
  "slice3 (JArr xs) = Inr (take 3 xs)"
| "slice3 (JStr s) = Inr (map (\<lambda>c. JStr [c]) (take 3 s))"
| "slice3 (JObj kvs) = Inl (TypeError ''unhashable type: slice'')"
| "slice3 v = Inl (TypeError ''object is not subscriptable'')"

text \<open>\<open>result['estimates'][key]\<close> formatted with \<open>:.2f\<close>.\<close>

definition estimate_2f :: "jvalue \<Rightarrow> string \<Rightarrow> exn option" where
  "estimate_2f result key =
     (case subscript result ''estimates'' of
        Inl e \<Rightarrow> Some e
      | Inr est \<Rightarrow> (case subscript est key of Inl e \<Rightarrow> Some e | Inr v \<Rightarrow> format_2f v))"

text \<open>The block of \<open>print\<close> calls between \<open>result = response.json()\<close> and
  \<open>return result\<close> (lines 78 to 96), in the order the expressions are evaluated: the
  first exception raised, or None when the block runs through.\<close>

definition print_results :: "jvalue \<Rightarrow> exn option" where
  "print_results result =
     (case subscript result ''id'' of
        Inl e \<Rightarrow> Some e
      | Inr _ \<Rightarrow>
     (case estimate_2f result ''kwh'' of
        Some e \<Rightarrow> Some e
      | None \<Rightarrow>
     (case estimate_2f result ''carbon_kg'' of
        Some e \<Rightarrow> Some e
      | None \<Rightarrow>
     (case estimate_2f result ''cost_usd'' of
        Some e \<Rightarrow> Some e
      | None \<Rightarrow>
     (case subscript result ''estimates'' of
        Inl e \<Rightarrow> Some e
      | Inr est \<Rightarrow>
     (case get_method est ''calculation_method'' (JStr ''N/A'') of
        Inl e \<Rightarrow> Some e
      | Inr _ \<Rightarrow>
     (case get_method result ''agent_insights'' JNull of
        Inl e \<Rightarrow> Some e
      | Inr ai \<Rightarrow>
          if truthy ai then
            (case subscript result ''agent_insights'' of
               Inl e \<Rightarrow> Some e
             | Inr ai' \<Rightarrow>
            (case subscript ai' ''optimizations'' of
               Inl e \<Rightarrow> Some e
             | Inr opts \<Rightarrow>
            (case slice3 opts of Inl e \<Rightarrow> Some e | Inr _ \<Rightarrow> None)))
          else None)))))))"

subsection \<open>The client\<close>

record tracker =
  api_base_url :: string

text \<open>\<open>s.rstrip(c)\<close> for a one-character argument: every trailing \<open>c\<close> goes.\<close>

definition rstrip :: "char \<Rightarrow> string \<Rightarrow> string" where
  "rstrip c s = rev (dropWhile (\<lambda>x. x = c) (rev s))"

definition default_api_base_url :: string where
  "default_api_base_url = ''https://aluminatiai.com''"

definition init :: "string \<Rightarrow> tracker" where
  "init u = \<lparr>api_base_url = rstrip CHR ''/'' u\<rparr>"

text \<open>The arguments of \<open>submit_workload\<close> other than \<open>max_retries\<close>, with the types of
  their annotations.\<close>

record workload =
  model_size_gb :: real
  num_gpus :: int
  gpu_type :: string
  duration_hours :: real
  utilization_pct :: real
  use_smart_agent :: bool
  "notes" :: "string option"

text \<open>Lines 54 to 64: the dict literal, then \<open>if notes: payload["notes"] = notes\<close>.
  None and the empty string are both false.\<close>

definition payload :: "workload \<Rightarrow> (string \<times> jvalue) list" where
  "payload w =
     [(''model_size_gb'', JFloat (model_size_gb w)),
      (''num_gpus'', JInt (num_gpus w)),
      (''gpu_type'', JStr (gpu_type w)),
      (''duration_hours'', JFloat (duration_hours w)),
      (''utilization_pct'', JFloat (utilization_pct w)),
      (''use_smart_agent'', JBool (use_smart_agent w))]
     @ (case notes w of
          None \<Rightarrow> []
        | Some n \<Rightarrow> if n \<noteq> [] then [(''notes'', JStr n)] else [])"

definition post_call :: "tracker \<Rightarrow> workload \<Rightarrow> http_call" where
  "post_call self w =
     \<lparr>verb = POST, url = api_base_url self @ ''/api/workloads'',
      json_body = Some (JObj (payload w)), timeout = Some 30\<rparr>"

text \<open>The body of the \<open>try\<close> (lines 69 to 98) once \<open>session.post\<close> has answered: the
  exception it raises, or the value it returns.\<close>

definition try_body :: "reply \<Rightarrow> exn + jvalue" where
  "try_body r =
     (case r of
        Inl e \<Rightarrow> Inl e
      | Inr resp \<Rightarrow>
          (case raise_for_status resp of
             Some e \<Rightarrow> Inl e
           | None \<Rightarrow>
               (case json resp of
                  Inl e \<Rightarrow> Inl e
                | Inr result \<Rightarrow>
                    (case print_results result of Some e \<Rightarrow> Inl e | None \<Rightarrow> Inr result))))"

text \<open>The loop \<open>for attempt in range(max_retries)\<close> from a given \<open>attempt\<close> on, and the
  \<open>return {}\<close> after it.\<close>

function submit_loop ::
  "session \<Rightarrow> tracker \<Rightarrow> workload \<Rightarrow> int \<Rightarrow> nat \<Rightarrow> event list \<Rightarrow> (exn + jvalue) \<times> event list"
where
  "submit_loop s self w max_retries attempt tr =
     (if int attempt < max_retries then
        (case try_body (fst (request s (post_call self w) tr)) of
           Inr result \<Rightarrow> (Inr result, snd (request s (post_call self w) tr))
         | Inl e \<Rightarrow>
             if is_RequestException e then
               (if int attempt < max_retries - 1 then
                  submit_loop s self w max_retries (Suc attempt)
                    (snd (request s (post_call self w) tr) @ [Sleep (2 ^ attempt)])
                else (Inl e, snd (request s (post_call self w) tr)))
             else (Inl e, snd (request s (post_call self w) tr)))
      else (Inr (JObj []), tr))"
  by pat_completeness auto
termination
  by (relation "measure (\<lambda>(s, self, w, max_retries, attempt, tr). nat max_retries - attempt)") auto

definition submit_workload ::
  "session \<Rightarrow> tracker \<Rightarrow> workload \<Rightarrow> int \<Rightarrow> event list \<Rightarrow> (exn + jvalue) \<times> event list"
where
  "submit_workload s self w max_retries tr = submit_loop s self w max_retries 0 tr"

definition get_call :: "tracker \<Rightarrow> string \<Rightarrow> http_call" where
  "get_call self workload_id =
     \<lparr>verb = GET, url = api_base_url self @ ''/api/workloads/'' @ workload_id,
      json_body = None, timeout = None\<rparr>"

definition patch_call :: "tracker \<Rightarrow> string \<Rightarrow> string \<Rightarrow> http_call" where
  "patch_call self workload_id status =
     \<lparr>verb = PATCH, url = api_base_url self @ ''/api/workloads/'' @ workload_id,
      json_body = Some (JObj [(''status'', JStr status)]), timeout = None\<rparr>"

text \<open>Lines 126 and 127, 144 and 145: \<open>response.raise_for_status()\<close>, then
  \<open>return response.json()\<close>, with no handler around them.\<close>

definition checked_json :: "reply \<Rightarrow> exn + jvalue" where
  "checked_json r =
     (case r of
        Inl e \<Rightarrow> Inl e
      | Inr resp \<Rightarrow> (case raise_for_status resp of Some e \<Rightarrow> Inl e | None \<Rightarrow> json resp))"

definition get_workload ::
  "session \<Rightarrow> tracker \<Rightarrow> string \<Rightarrow> event list \<Rightarrow> (exn + jvalue) \<times> event list"
where
  "get_workload s self workload_id tr =
     (checked_json (fst (request s (get_call self workload_id) tr)),
      snd (request s (get_call self workload_id) tr))"

definition update_status ::
  "session \<Rightarrow> tracker \<Rightarrow> string \<Rightarrow> string \<Rightarrow> event list \<Rightarrow> (exn + jvalue) \<times> event list"
where
  "update_status s self workload_id status tr =
     (checked_json (fst (request s (patch_call self workload_id status) tr)),
      snd (request s (patch_call self workload_id status) tr))"

text \<open>The handler \<open>except requests.exceptions.RequestException\<close> catches what the body of
  the \<open>try\<close> raised: the attempt is then retried, or is the last one.\<close>

definition caught :: "reply \<Rightarrow> bool" where
  "caught r = (case try_body r of Inl e \<Rightarrow> is_RequestException e | Inr _ \<Rightarrow> False)"

text \<open>\<open>key in v\<close> for a parsed JSON value that may or may not be a dict.\<close>

fun has_key :: "jvalue \<Rightarrow> string \<Rightarrow> bool" where
  "has_key (JObj kvs) key = (case map_of kvs key of None \<Rightarrow> False | Some _ \<Rightarrow> True)"
| "has_key v key = False"

subsection \<open>Simulated endpoints and example data\<close>

text \<open>The first call of the example run (lines 163 to 171), and a response of the shape
  the service documents.\<close>

definition example_workload :: workload where
  "example_workload =
     \<lparr>model_size_gb = 70, num_gpus = 8, gpu_type = ''H100'', duration_hours = 72,
      utilization_pct = 85, use_smart_agent = True,
      notes = Some ''Fine-tuning LLaMA 70B on proprietary dataset''\<rparr>"

definition example_result :: jvalue where
  "example_result =
     JObj [(''id'', JStr ''abc123''), (''status'', JStr ''submitted''),
           (''estimates'', JObj [(''kwh'', JFloat 1200.5), (''carbon_kg'', JFloat 600.2),
                                 (''cost_usd'', JFloat 150)])]"

definition ok_response :: "jvalue \<Rightarrow> response" where
  "ok_response body = \<lparr>raise_for_status = None, json = Inr body\<rparr>"

definition error_response :: "nat \<Rightarrow> response" where
  "error_response status =
     \<lparr>raise_for_status = Some (HTTPError status), json = Inl (JSONDecodeError ''no body'')\<rparr>"

text \<open>The response object of the requests library for a status code and the outcome of
  parsing the body. Its \<open>raise_for_status\<close> raises \<open>HTTPError\<close> for the client and server
  error statuses, 400 to 599, and returns for every other status, 1xx and 3xx included.\<close>

definition http_response :: "nat \<Rightarrow> exn + jvalue \<Rightarrow> response" where
  "http_response code parsed =
     \<lparr>raise_for_status = (if 400 \<le> code \<and> code < 600 then Some (HTTPError code) else None),
      json = parsed\<rparr>"

definition always_status :: "nat \<Rightarrow> exn + jvalue \<Rightarrow> session" where
  "always_status code parsed n c = Inr (http_response code parsed)"

definition always_ok :: "jvalue \<Rightarrow> session" where
  "always_ok body n c = Inr (ok_response body)"

definition always_refused :: session where
  "always_refused n c = Inl (ConnectionError ''connection refused'')"

definition always_unavailable :: session where
  "always_unavailable n c = Inr (error_response 503)"

definition fails_then_ok :: "nat \<Rightarrow> jvalue \<Rightarrow> session" where
  "fails_then_ok k body n c =
     (if n < k then (if even n then Inl (Timeout ''read timed out'') else Inr (error_response 502))
      else Inr (ok_response body))"

text \<open>Two responses that are not of the documented shape: one without \<open>cost_usd\<close>, one
  that sends \<open>kwh\<close> as a string and nothing else under \<open>estimates\<close>.\<close>

definition result_without_cost :: jvalue where
  "result_without_cost =
     JObj [(''id'', JStr ''abc123''), (''status'', JStr ''submitted''),
           (''estimates'', JObj [(''kwh'', JFloat 1200.5), (''carbon_kg'', JFloat 600.2)])]"

definition result_with_string_kwh :: jvalue where
  "result_with_string_kwh =
     JObj [(''id'', JStr ''abc123''), (''status'', JStr ''submitted''),
           (''estimates'', JObj [(''kwh'', JStr ''1200.5'')])]"

subsection \<open>The retry loop, step by step\<close>

declare submit_loop.simps [simp del]

lemma calls_of_append: "calls_of (xs @ ys) = calls_of xs @ calls_of ys"
  by (induction xs rule: calls_of.induct) simp_all

lemma sleeps_of_append: "sleeps_of (xs @ ys) = sleeps_of xs @ sleeps_of ys"
  by (induction xs rule: sleeps_of.induct) simp_all

lemma submit_loop_stop:
  assumes "int a < max_retries" "length (calls_of tr) = a"
    and "\<not> caught (s a (post_call self w)) \<or> int a = max_retries - 1"
  shows "submit_loop s self w max_retries a tr =
           (try_body (s a (post_call self w)), tr @ [HttpCall (post_call self w)])"
  using assms
  by (subst submit_loop.simps) (auto simp: request_def caught_def split: sum.splits)

lemma submit_loop_retry:
  assumes "int a < max_retries - 1" "length (calls_of tr) = a"
    and "caught (s a (post_call self w))"
  shows "submit_loop s self w max_retries a tr =
           submit_loop s self w max_retries (Suc a)
             (tr @ [HttpCall (post_call self w), Sleep (2 ^ a)])"
  using assms
  by (subst submit_loop.simps) (auto simp: request_def caught_def split: sum.splits)

lemma submit_loop_steps:
  assumes "length (calls_of tr) = a" "a \<le> k" "int k < max_retries"
    and "\<forall>i. a \<le> i \<and> i < k \<longrightarrow> caught (s i (post_call self w))"
    and "\<not> caught (s k (post_call self w)) \<or> int k = max_retries - 1"
  shows "submit_loop s self w max_retries a tr =
           (try_body (s k (post_call self w)),
            tr @ concat (map (\<lambda>i. [HttpCall (post_call self w), Sleep (2 ^ i)]) [a..<k])
               @ [HttpCall (post_call self w)])"
  using assms
proof (induction "k - a" arbitrary: a tr)
  case 0
  then have "a = k" by simp
  with 0 show ?case by (simp add: submit_loop_stop)
next
  case (Suc n)
  then have lt: "a < k" by simp
  have c: "caught (s a (post_call self w))" using Suc.prems lt by simp
  have "submit_loop s self w max_retries a tr =
          submit_loop s self w max_retries (Suc a)
             (tr @ [HttpCall (post_call self w), Sleep (2 ^ a)])"
    using Suc.prems lt c by (intro submit_loop_retry) auto
  also have "\<dots> = (try_body (s k (post_call self w)),
            (tr @ [HttpCall (post_call self w), Sleep (2 ^ a)])
              @ concat (map (\<lambda>i. [HttpCall (post_call self w), Sleep (2 ^ i)]) [Suc a..<k])
              @ [HttpCall (post_call self w)])"
    using Suc.prems Suc.hyps lt
    by (intro Suc.hyps(1)) (auto simp: calls_of_append)
  finally show ?case using lt by (simp add: upt_conv_Cons)
qed

lemma submit_loop_done:
  "\<not> int a < max_retries \<Longrightarrow> submit_loop s self w max_retries a tr = (Inr (JObj []), tr)"
  by (subst submit_loop.simps) simp

lemma first_stop:
  assumes "0 < max_retries"
  shows "\<exists>k. int k < max_retries \<and> (\<forall>i<k. caught (s i c)) \<and>
           (\<not> caught (s k c) \<or> int k = max_retries - 1)"
proof -
  define P where "P = (\<lambda>k. \<not> caught (s k c) \<or> int k = max_retries - 1)"
  have ex: "P (nat (max_retries - 1))" using assms by (simp add: P_def)
  define k where "k = (LEAST k. P k)"
  have Pk: "P k" unfolding k_def using ex by (rule LeastI)
  have le: "k \<le> nat (max_retries - 1)" unfolding k_def using ex by (rule Least_le)
  have before: "\<forall>i<k. caught (s i c)"
  proof (intro allI impI)
    fix i assume "i < k"
    then have "\<not> P i" unfolding k_def by (rule not_less_Least)
    then show "caught (s i c)" by (simp add: P_def)
  qed
  have "int k < max_retries" using le assms by linarith
  with before Pk show ?thesis unfolding P_def by blast
qed

lemma interleave_shift:
  "concat (map (\<lambda>i. [c, f i]) xs) @ [c] = c # concat (map (\<lambda>i. [f i, c]) xs)"
  by (induction xs) simp_all

lemma calls_of_backoff:
  "calls_of (concat (map (\<lambda>i. [Sleep (f i), HttpCall c]) xs)) = replicate (length xs) c"
  by (induction xs) simp_all

lemma sleeps_of_backoff:
  "sleeps_of (concat (map (\<lambda>i. [Sleep (f i), HttpCall c]) xs)) = map f xs"
  by (induction xs) simp_all

lemma submit_workload_run:
  assumes "int k < max_retries" "\<forall>i<k. caught (s i (post_call self w))"
    and "\<not> caught (s k (post_call self w)) \<or> int k = max_retries - 1"
  shows "submit_workload s self w max_retries [] =
           (try_body (s k (post_call self w)),
            HttpCall (post_call self w) #
              concat (map (\<lambda>i. [Sleep (2 ^ i), HttpCall (post_call self w)]) [0..<k]))"
proof -
  have "submit_loop s self w max_retries 0 [] =
           (try_body (s k (post_call self w)),
            [] @ concat (map (\<lambda>i. [HttpCall (post_call self w), Sleep (2 ^ i)]) [0..<k])
               @ [HttpCall (post_call self w)])"
    using assms by (intro submit_loop_steps) auto
  then show ?thesis
    by (simp add: submit_workload_def interleave_shift)
qed

lemma submit_workload_cases:
  assumes "0 < max_retries"
  shows "\<exists>k. int k < max_retries \<and> (\<forall>i<k. caught (s i (post_call self w))) \<and>
    (\<not> caught (s k (post_call self w)) \<or> int k = max_retries - 1) \<and>
    submit_workload s self w max_retries [] =
           (try_body (s k (post_call self w)),
            HttpCall (post_call self w) #
              concat (map (\<lambda>i. [Sleep (2 ^ i), HttpCall (post_call self w)]) [0..<k]))"
proof -
  from first_stop [OF assms, of s "post_call self w"]
  obtain k where k: "int k < max_retries" "\<forall>i<k. caught (s i (post_call self w))"
    "\<not> caught (s k (post_call self w)) \<or> int k = max_retries - 1"
    by (elim exE conjE)
  have "submit_workload s self w max_retries [] =
           (try_body (s k (post_call self w)),
            HttpCall (post_call self w) #
              concat (map (\<lambda>i. [Sleep (2 ^ i), HttpCall (post_call self w)]) [0..<k]))"
    using k by (rule submit_workload_run [where s = s and k = k])
  with k show ?thesis
    by (intro exI [of _ k] conjI)
qed

lemma sum_list_upt_lessThan: "sum_list (map f [0..<k]) = (\<Sum>i<k. (f i :: int))"
  by (induction k) simp_all

lemma backoff_sum_mono:
  assumes "k \<le> m"
  shows "(\<Sum>i<k. (2::int) ^ i) \<le> (\<Sum>i<m. 2 ^ i)"
  using assms by (intro sum_mono2) auto

lemma try_body_failure:
  assumes "r = Inl e \<or> (\<exists>resp. r = Inr resp \<and> raise_for_status resp = Some e)"
  shows "try_body r = Inl e"
  using assms by (auto simp: try_body_def)

lemma caught_failure:
  assumes "try_body r = Inl e" "is_RequestException e"
  shows "caught r"
  using assms by (simp add: caught_def)

lemma not_caught_success: "try_body r = Inr body \<Longrightarrow> \<not> caught r"
  by (simp add: caught_def)

lemma try_body_success:
  assumes "r = Inr resp" "raise_for_status resp = None" "json resp = Inr body"
    "print_results body = None"
  shows "try_body r = Inr body"
  using assms by (simp add: try_body_def)

lemma try_body_Inr_iff:
  "try_body r = Inr body \<longleftrightarrow>
     (\<exists>resp. r = Inr resp \<and> raise_for_status resp = None \<and> json resp = Inr body \<and>
        print_results body = None)"
  by (auto simp: try_body_def split: sum.splits option.splits)

subsection \<open>What the calls of one submission are\<close>

lemma submit_workload_calls:
  "\<exists>n. calls_of (snd (submit_workload s self w max_retries [])) =
         replicate n (post_call self w)"
proof (cases "0 < max_retries")
  case False
  then have "submit_workload s self w max_retries [] = (Inr (JObj []), [])"
    by (simp add: submit_workload_def submit_loop_done)
  then have "calls_of (snd (submit_workload s self w max_retries [])) =
         replicate 0 (post_call self w)"
    by simp
  then show ?thesis ..
next
  case True
  from submit_workload_cases [OF True, of s self w]
  obtain k where "submit_workload s self w max_retries [] =
           (try_body (s k (post_call self w)),
            HttpCall (post_call self w) #
              concat (map (\<lambda>i. [Sleep (2 ^ i), HttpCall (post_call self w)]) [0..<k]))"
    by (elim exE conjE)
  then have "calls_of (snd (submit_workload s self w max_retries [])) =
         replicate (Suc k) (post_call self w)"
    by (simp add: calls_of_backoff)
  then show ?thesis ..
qed

lemma submit_workload_call_is_post:
  assumes "c \<in> set (calls_of (snd (submit_workload s self w max_retries [])))"
  shows "c = post_call self w"
proof -
  from submit_workload_calls [of s self w max_retries]
  obtain n where "calls_of (snd (submit_workload s self w max_retries [])) =
         replicate n (post_call self w)" ..
  with assms show ?thesis by simp
qed

lemma submit_workload_first_call:
  assumes "0 < max_retries"
  shows "post_call self w \<in> set (calls_of (snd (submit_workload s self w max_retries [])))"
proof -
  from submit_workload_cases [OF assms, of s self w]
  obtain k where "submit_workload s self w max_retries [] =
           (try_body (s k (post_call self w)),
            HttpCall (post_call self w) #
              concat (map (\<lambda>i. [Sleep (2 ^ i), HttpCall (post_call self w)]) [0..<k]))"
    by (elim exE conjE)
  then show ?thesis by simp
qed

subsection \<open>Stripping the base URL\<close>

lemma rstrip_snoc: "rstrip c (s @ [c]) = rstrip c s"
  by (simp add: rstrip_def)

lemma rstrip_idem: "rstrip c (rstrip c s) = rstrip c s"
  by (simp add: rstrip_def)

lemma rstrip_last: "rstrip c s = [] \<or> last (rstrip c s) \<noteq> c"
proof (cases "dropWhile (\<lambda>x. x = c) (rev s)")
  case Nil
  then show ?thesis by (simp add: rstrip_def)
next
  case (Cons x xs)
  then have "hd (dropWhile (\<lambda>x. x = c) (rev s)) \<noteq> c"
    using hd_dropWhile [of "\<lambda>x. x = c" "rev s"] by simp
  with Cons show ?thesis by (simp add: rstrip_def last_rev)
qed

lemma takeWhile_eq_replicate: "takeWhile (\<lambda>x. x = c) xs = replicate (length (takeWhile (\<lambda>x. x = c) xs)) c"
  by (induction xs) simp_all

lemma rstrip_suffix: "\<exists>n. s = rstrip c s @ replicate n c"
proof -
  have "rev s = takeWhile (\<lambda>x. x = c) (rev s) @ dropWhile (\<lambda>x. x = c) (rev s)"
    by simp
  then have "s = rev (dropWhile (\<lambda>x. x = c) (rev s)) @ rev (takeWhile (\<lambda>x. x = c) (rev s))"
    by (metis rev_append rev_rev_ident)
  also have "rev (takeWhile (\<lambda>x. x = c) (rev s)) =
      replicate (length (takeWhile (\<lambda>x. x = c) (rev s))) c"
    by (subst takeWhile_eq_replicate) simp
  finally show ?thesis unfolding rstrip_def by blast
qed

subsection \<open>Exceptions of the result printing\<close>

lemma subscript_not_request: "subscript v key = Inl e \<Longrightarrow> \<not> is_RequestException e"
  by (cases v) (auto split: option.splits)

lemma get_method_not_request: "get_method v key d = Inl e \<Longrightarrow> \<not> is_RequestException e"
  by (cases v) (auto split: option.splits)

lemma format_2f_None_iff:
  "format_2f v = None \<longleftrightarrow>
     (\<exists>x. v = JFloat x) \<or> (\<exists>b. v = JBool b) \<or>
     (\<exists>i. v = JInt i \<and> \<bar>i\<bar> < 2 ^ 1024 - 2 ^ 970)"
  by (cases v) simp_all

lemma format_2f_not_request: "format_2f v = Some e \<Longrightarrow> \<not> is_RequestException e"
  by (cases v) (auto split: if_splits)

lemma slice3_not_request: "slice3 v = Inl e \<Longrightarrow> \<not> is_RequestException e"
  by (cases v) auto

lemma estimate_2f_not_request: "estimate_2f v key = Some e \<Longrightarrow> \<not> is_RequestException e"
  by (auto simp: estimate_2f_def split: sum.splits
      dest: subscript_not_request format_2f_not_request)

lemma print_results_not_request:
  assumes "print_results body = Some e"
  shows "\<not> is_RequestException e"
  using assms unfolding print_results_def
  by (auto split: sum.splits option.splits if_splits
      dest: subscript_not_request get_method_not_request estimate_2f_not_request
        slice3_not_request)

lemma subscript_Inr_has_key: "subscript v key = Inr x \<Longrightarrow> has_key v key"
  by (cases v) (auto split: option.splits)

lemma estimate_2f_None:
  assumes "estimate_2f body key = None"
  shows "\<exists>est. subscript body ''estimates'' = Inr est \<and> has_key est key"
  using assms
  by (auto simp: estimate_2f_def split: sum.splits dest: subscript_Inr_has_key)

lemma print_results_None_keys:
  assumes "print_results body = None"
  shows "has_key body ''id'' \<and> has_key body ''estimates'' \<and>
         (\<forall>est. subscript body ''estimates'' = Inr est \<longrightarrow>
            has_key est ''kwh'' \<and> has_key est ''carbon_kg'' \<and> has_key est ''cost_usd'')"
proof -
  from assms have id: "\<exists>x. subscript body ''id'' = Inr x"
    and kwh: "estimate_2f body ''kwh'' = None"
    and carbon: "estimate_2f body ''carbon_kg'' = None"
    and cost: "estimate_2f body ''cost_usd'' = None"
    unfolding print_results_def by (auto split: sum.splits option.splits)
  from id have "has_key body ''id''" by (auto dest: subscript_Inr_has_key)
  moreover from estimate_2f_None [OF kwh] have "has_key body ''estimates''"
    by (auto dest: subscript_Inr_has_key)
  moreover have "has_key est ''kwh'' \<and> has_key est ''carbon_kg'' \<and> has_key est ''cost_usd''"
    if "subscript body ''estimates'' = Inr est" for est
    using that estimate_2f_None [OF kwh] estimate_2f_None [OF carbon]
      estimate_2f_None [OF cost] by auto
  ultimately show ?thesis by blast
qed

lemma print_results_documented_shape:
  assumes "map_of kvs ''id'' = Some i"
    and "map_of kvs ''estimates'' = Some (JObj es)"
    and "map_of es ''kwh'' = Some (JFloat kwh)"
    and "map_of es ''carbon_kg'' = Some (JFloat carbon_kg)"
    and "map_of es ''cost_usd'' = Some (JFloat cost_usd)"
    and "map_of kvs ''agent_insights'' = None \<or>
         (\<exists>opts. map_of kvs ''agent_insights'' = Some (JObj [(''optimizations'', JArr opts)]))"
  shows "print_results (JObj kvs) = None"
  using assms by (auto simp: print_results_def estimate_2f_def split: option.splits)

lemma has_key_subscript: "has_key v key \<Longrightarrow> \<exists>x. subscript v key = Inr x"
  by (cases v) (auto split: option.splits)

lemma not_has_key_JObj: "\<not> has_key (JObj kvs) key \<Longrightarrow> subscript (JObj kvs) key = Inl (KeyError key)"
  by (auto split: option.splits)

lemma estimate_2f_cases:
  assumes "subscript body ''estimates'' = Inr (JObj es)"
    and "\<forall>v. subscript (JObj es) key = Inr v \<longrightarrow> format_2f v = None"
  shows "estimate_2f body key =
           (if has_key (JObj es) key then None else Some (KeyError key))"
  using assms by (auto simp: estimate_2f_def split: option.splits)

lemma print_results_KeyError:
  assumes lacks: "\<not> has_key body ''id'' \<or> \<not> has_key body ''estimates'' \<or>
       (\<exists>est. subscript body ''estimates'' = Inr est \<and>
          (\<not> has_key est ''kwh'' \<or> \<not> has_key est ''carbon_kg'' \<or> \<not> has_key est ''cost_usd''))"
    and obj: "body = JObj kvs"
    and typed: "\<forall>est. subscript body ''estimates'' = Inr est \<longrightarrow>
       (\<exists>es. est = JObj es) \<and>
       (\<forall>key v. key \<in> {''kwh'', ''carbon_kg'', ''cost_usd''} \<and> subscript est key = Inr v
          \<longrightarrow> format_2f v = None)"
  shows "\<exists>key \<in> {''id'', ''estimates'', ''kwh'', ''carbon_kg'', ''cost_usd''}.
           print_results body = Some (KeyError key)"
proof (cases "has_key body ''id''")
  case False
  then have "subscript body ''id'' = Inl (KeyError ''id'')"
    unfolding obj by (rule not_has_key_JObj)
  then show ?thesis by (simp add: print_results_def)
next
  case id: True
  then obtain x where x: "subscript body ''id'' = Inr x" by (auto dest: has_key_subscript)
  show ?thesis
  proof (cases "has_key body ''estimates''")
    case False
    then have "subscript body ''estimates'' = Inl (KeyError ''estimates'')"
      unfolding obj by (rule not_has_key_JObj)
    then have "estimate_2f body ''kwh'' = Some (KeyError ''estimates'')"
      by (simp add: estimate_2f_def)
    with x show ?thesis by (simp add: print_results_def)
  next
    case True
    then obtain est where est: "subscript body ''estimates'' = Inr est"
      by (auto dest: has_key_subscript)
    with typed obtain es where es: "est = JObj es" by blast
    have fmt: "\<forall>v. subscript (JObj es) key = Inr v \<longrightarrow> format_2f v = None"
      if "key \<in> {''kwh'', ''carbon_kg'', ''cost_usd''}" for key
      using typed est es that by blast
    have e: "estimate_2f body key =
           (if has_key (JObj es) key then None else Some (KeyError key))"
      if "key \<in> {''kwh'', ''carbon_kg'', ''cost_usd''}" for key
      using est [unfolded es] fmt [OF that] by (rule estimate_2f_cases)
    have e1: "estimate_2f body ''kwh'' =
           (if has_key (JObj es) ''kwh'' then None else Some (KeyError ''kwh''))"
      by (rule e) simp
    have e2: "estimate_2f body ''carbon_kg'' =
           (if has_key (JObj es) ''carbon_kg'' then None else Some (KeyError ''carbon_kg''))"
      by (rule e) simp
    have e3: "estimate_2f body ''cost_usd'' =
           (if has_key (JObj es) ''cost_usd'' then None else Some (KeyError ''cost_usd''))"
      by (rule e) simp
    from lacks id True est es
    have miss: "\<not> has_key (JObj es) ''kwh'' \<or> \<not> has_key (JObj es) ''carbon_kg'' \<or>
        \<not> has_key (JObj es) ''cost_usd''"
      by auto
    have "print_results body =
        (if \<not> has_key (JObj es) ''kwh'' then Some (KeyError ''kwh'')
         else if \<not> has_key (JObj es) ''carbon_kg'' then Some (KeyError ''carbon_kg'')
         else Some (KeyError ''cost_usd''))"
      using miss unfolding print_results_def x e1 e2 e3 by auto
    then show ?thesis by simp
  qed
qed

subsection \<open>Every attempt fails\<close>

text \<open>
  Claim C1, for \<open>max_retries\<close> of at least one. When every attempt fails with a
  \<open>RequestException\<close>, raised by \<open>session.post\<close> (a transport error) or by
  \<open>raise_for_status\<close> (an HTTP error status), the client makes exactly \<open>max_retries\<close>
  calls, all of them the same POST, and the exception of the last attempt reaches the
  caller.
\<close>

theorem submit_workload_all_attempts_fail:
  assumes "1 \<le> max_retries"
    and "\<forall>i<nat max_retries. is_RequestException (e i) \<and>
           (s i (post_call self w) = Inl (e i) \<or>
            (\<exists>resp. s i (post_call self w) = Inr resp \<and> raise_for_status resp = Some (e i)))"
    and "submit_workload s self w max_retries [] = (r, tr)"
  shows "r = Inl (e (nat max_retries - 1)) \<and>
         calls_of tr = replicate (nat max_retries) (post_call self w) \<and>
         int (length (calls_of tr)) = max_retries"
proof -
  define k where "k = nat max_retries - 1"
  have k: "int k < max_retries" "int k = max_retries - 1" "Suc k = nat max_retries"
    using assms(1) by (simp_all add: k_def)
  have fail: "try_body (s i (post_call self w)) = Inl (e i)" if "i < nat max_retries" for i
    using assms(2) that by (intro try_body_failure) blast
  have "\<forall>i<k. caught (s i (post_call self w))"
  proof (intro allI impI)
    fix i assume "i < k"
    then have i: "i < nat max_retries" using k(3) by linarith
    with assms(2) have "is_RequestException (e i)" by blast
    with fail [OF i] show "caught (s i (post_call self w))" by (rule caught_failure)
  qed
  then have "submit_workload s self w max_retries [] =
           (try_body (s k (post_call self w)),
            HttpCall (post_call self w) #
              concat (map (\<lambda>i. [Sleep (2 ^ i), HttpCall (post_call self w)]) [0..<k]))"
    using k(1,2) by (intro submit_workload_run [where s = s and k = k]) auto
  moreover have "try_body (s k (post_call self w)) = Inl (e k)"
    using k(3) by (intro fail) linarith
  ultimately have "r = Inl (e k)"
    and "tr = HttpCall (post_call self w) #
              concat (map (\<lambda>i. [Sleep (2 ^ i), HttpCall (post_call self w)]) [0..<k])"
    using assms(3) by simp_all
  then have "r = Inl (e k)" and "calls_of tr = replicate (Suc k) (post_call self w)"
    by (simp_all add: calls_of_backoff)
  then show ?thesis
    unfolding k(3) using assms(1) by (simp add: k_def)
qed

text \<open>Three attempts that time out, answer 502 and time out again: three calls, and the
  caller sees the last timeout.\<close>

theorem submit_workload_all_attempts_fail_witness:
  "(1::int) \<le> 3 \<and>
   fst (submit_workload (fails_then_ok 3 example_result) (init default_api_base_url)
          example_workload 3 []) = Inl (Timeout ''read timed out'') \<and>
   length (calls_of (snd (submit_workload (fails_then_ok 3 example_result)
          (init default_api_base_url) example_workload 3 []))) = 3"
proof -
  let ?s = "fails_then_ok 3 example_result"
  let ?self = "init default_api_base_url"
  let ?e = "\<lambda>i::nat. if even i then Timeout ''read timed out'' else HTTPError 502"
  let ?X = "submit_workload ?s ?self example_workload 3 []"
  have h1: "(1::int) \<le> 3" by simp
  have h2: "\<forall>i<nat 3. is_RequestException (?e i) \<and>
           (?s i (post_call ?self example_workload) = Inl (?e i) \<or>
            (\<exists>resp. ?s i (post_call ?self example_workload) = Inr resp \<and>
               raise_for_status resp = Some (?e i)))"
    by (simp add: fails_then_ok_def error_response_def)
  have h3: "?X = (fst ?X, snd ?X)" by simp
  from submit_workload_all_attempts_fail
    [where max_retries = 3 and s = ?s and self = ?self and w = example_workload and e = ?e
       and r = "fst ?X" and tr = "snd ?X", OF h1 h2 h3]
  show ?thesis by simp
qed

text \<open>With \<open>max_retries = 0\<close> and an endpoint that refuses every connection, nothing is
  raised: the caller gets \<open>{}\<close> and no call was made.\<close>

theorem submit_workload_zero_retries_counterexample:
  "submit_workload always_refused (init default_api_base_url) example_workload 0 [] =
     (Inr (JObj []), [])"
  by (simp add: submit_workload_def submit_loop_done)

subsection \<open>Exponential backoff\<close>

text \<open>
  Claim C2. Whatever the endpoint does, the trace of \<open>submit_workload\<close> is a call, then
  for each failed attempt \<open>i\<close> that is not the last a sleep of \<open>2 ^ i\<close> seconds followed by
  the call of attempt \<open>i + 1\<close>; nothing follows the last call. The seconds slept never
  add up to more than the sum of \<open>2 ^ i\<close> for \<open>i\<close> from 0 to \<open>max_retries - 2\<close>, and they add
  up to exactly that when every attempt is caught by the handler: the waits are then
  1, 2, 4, ... up to \<open>2 ^ (max_retries - 2)\<close>.
\<close>

theorem submit_workload_backoff:
  assumes "submit_workload s self w max_retries [] = (r, tr)"
  shows "tr = (if calls_of tr = [] then []
               else HttpCall (post_call self w) #
                 concat (map (\<lambda>i. [Sleep (2 ^ i), HttpCall (post_call self w)])
                   [0..<length (calls_of tr) - 1])) \<and>
         sum_list (sleeps_of tr) \<le> (\<Sum>i<nat max_retries - 1. 2 ^ i) \<and>
         ((\<forall>i<nat max_retries. caught (s i (post_call self w))) \<longrightarrow>
            sleeps_of tr = map (\<lambda>i. 2 ^ i) [0..<nat max_retries - 1] \<and>
            sum_list (sleeps_of tr) = (\<Sum>i<nat max_retries - 1. 2 ^ i))"
proof (cases "0 < max_retries")
  case False
  then have "submit_workload s self w max_retries [] = (Inr (JObj []), [])"
    by (simp add: submit_workload_def submit_loop_done)
  with assms have "tr = []" by simp
  with False show ?thesis by simp
next
  case True
  from submit_workload_cases [OF True, of s self w]
  obtain k where k: "int k < max_retries" "\<forall>i<k. caught (s i (post_call self w))"
    "\<not> caught (s k (post_call self w)) \<or> int k = max_retries - 1"
    and run: "submit_workload s self w max_retries [] =
           (try_body (s k (post_call self w)),
            HttpCall (post_call self w) #
              concat (map (\<lambda>i. [Sleep (2 ^ i), HttpCall (post_call self w)]) [0..<k]))"
    by (elim exE conjE)
  from run assms have tr: "tr = HttpCall (post_call self w) #
              concat (map (\<lambda>i. [Sleep (2 ^ i), HttpCall (post_call self w)]) [0..<k])"
    by simp
  have calls: "calls_of tr = replicate (Suc k) (post_call self w)"
    by (simp add: tr calls_of_backoff)
  have sleeps: "sleeps_of tr = map (\<lambda>i. 2 ^ i) [0..<k]"
    by (simp add: tr sleeps_of_backoff)
  have le: "k \<le> nat max_retries - 1" using k(1) by linarith
  have shape: "tr = (if calls_of tr = [] then []
               else HttpCall (post_call self w) #
                 concat (map (\<lambda>i. [Sleep (2 ^ i), HttpCall (post_call self w)])
                   [0..<length (calls_of tr) - 1]))"
    unfolding calls by (simp add: tr)
  have bound: "sum_list (sleeps_of tr) \<le> (\<Sum>i<nat max_retries - 1. 2 ^ i)"
    unfolding sleeps sum_list_upt_lessThan using le by (rule backoff_sum_mono)
  have worst: "sleeps_of tr = map (\<lambda>i. 2 ^ i) [0..<nat max_retries - 1] \<and>
            sum_list (sleeps_of tr) = (\<Sum>i<nat max_retries - 1. 2 ^ i)"
    if all: "\<forall>i<nat max_retries. caught (s i (post_call self w))"
  proof -
    have "k < nat max_retries" using k(1) by linarith
    with all have "caught (s k (post_call self w))" by blast
    with k(3) have "int k = max_retries - 1" by blast
    then have "k = nat max_retries - 1" by linarith
    then show ?thesis by (simp add: sleeps sum_list_upt_lessThan)
  qed
  from shape bound worst show ?thesis by blast
qed

text \<open>Three failing attempts: the client sleeps 1 second, then 2, and 3 seconds in all.\<close>

theorem submit_workload_backoff_witness:
  "sleeps_of (snd (submit_workload (fails_then_ok 3 example_result)
      (init default_api_base_url) example_workload 3 [])) = [1, 2] \<and>
   sum_list (sleeps_of (snd (submit_workload (fails_then_ok 3 example_result)
      (init default_api_base_url) example_workload 3 []))) = 3"
proof -
  let ?s = "fails_then_ok 3 example_result"
  let ?self = "init default_api_base_url"
  let ?X = "submit_workload ?s ?self example_workload 3 []"
  have h1: "?X = (fst ?X, snd ?X)" by simp
  have h2: "\<forall>i<nat 3. caught (?s i (post_call ?self example_workload))"
    by (simp add: caught_def try_body_def fails_then_ok_def error_response_def)
  have up: "[0..<nat 3 - 1] = [0, 1]" by (simp add: upt_rec)
  have "sleeps_of (snd ?X) = map (\<lambda>i. 2 ^ i) [0..<nat 3 - 1]"
    using submit_workload_backoff
      [where max_retries = 3 and s = ?s and self = ?self and w = example_workload
         and r = "fst ?X" and tr = "snd ?X", OF h1] h2
    by blast
  then have "sleeps_of (snd ?X) = [1, 2]" unfolding up by simp
  then show ?thesis by simp
qed

subsection \<open>The first success is returned\<close>

text \<open>
  Claim C3, for a body the printing of lines 78 to 96 accepts. When attempt \<open>k\<close> (after
  \<open>k\<close> caught failures) gets a response that passes \<open>raise_for_status\<close>, whose \<open>json()\<close>
  parses to \<open>body\<close>, and the prints run through on \<open>body\<close>, then \<open>submit_workload\<close> returns
  \<open>body\<close> unchanged; it has made \<open>k + 1\<close> calls, slept \<open>1, 2, ..., 2 ^ (k - 1)\<close> seconds
  between them, and the last event is the successful call. With \<open>k = 0\<close>: one call.
\<close>

theorem submit_workload_returns_first_success:
  assumes "int k < max_retries"
    and "\<forall>i<k. caught (s i (post_call self w))"
    and "s k (post_call self w) = Inr resp"
    and "raise_for_status resp = None"
    and "json resp = Inr body"
    and "print_results body = None"
    and "submit_workload s self w max_retries [] = (r, tr)"
  shows "r = Inr body \<and>
         calls_of tr = replicate (Suc k) (post_call self w) \<and>
         sleeps_of tr = map (\<lambda>i. 2 ^ i) [0..<k] \<and>
         last tr = HttpCall (post_call self w)"
proof -
  have ok: "try_body (s k (post_call self w)) = Inr body"
    using assms(3-6) by (rule try_body_success)
  then have "\<not> caught (s k (post_call self w))" by (rule not_caught_success)
  then have "submit_workload s self w max_retries [] =
           (try_body (s k (post_call self w)),
            HttpCall (post_call self w) #
              concat (map (\<lambda>i. [Sleep (2 ^ i), HttpCall (post_call self w)]) [0..<k]))"
    using assms(1,2) by (intro submit_workload_run [where s = s and k = k]) auto
  with assms(7) ok have r: "r = Inr body"
    and tr: "tr = HttpCall (post_call self w) #
              concat (map (\<lambda>i. [Sleep (2 ^ i), HttpCall (post_call self w)]) [0..<k])"
    by simp_all
  have "last tr = HttpCall (post_call self w)"
    unfolding tr by (induction k) simp_all
  with r show ?thesis by (simp add: tr calls_of_backoff sleeps_of_backoff)
qed

text \<open>The documented response shape, returned by an endpoint that always succeeds: one
  call, no sleep, and the result is the response body as it came.\<close>

theorem submit_workload_returns_first_success_witness:
  "int 0 < 3 \<and> print_results example_result = None \<and>
   fst (submit_workload (always_ok example_result) (init default_api_base_url)
      example_workload 3 []) = Inr example_result \<and>
   calls_of (snd (submit_workload (always_ok example_result) (init default_api_base_url)
      example_workload 3 [])) = [post_call (init default_api_base_url) example_workload] \<and>
   sleeps_of (snd (submit_workload (always_ok example_result) (init default_api_base_url)
      example_workload 3 [])) = []"
proof -
  let ?s = "always_ok example_result"
  let ?self = "init default_api_base_url"
  let ?X = "submit_workload ?s ?self example_workload 3 []"
  have h1: "int 0 < 3" by simp
  have h2: "\<forall>i<0. caught (?s i (post_call ?self example_workload))" by simp
  have h3: "?s 0 (post_call ?self example_workload) = Inr (ok_response example_result)"
    by (simp add: always_ok_def)
  have h4: "raise_for_status (ok_response example_result) = None"
    by (simp add: ok_response_def)
  have h5: "json (ok_response example_result) = Inr example_result"
    by (simp add: ok_response_def)
  have h6: "print_results example_result = None"
    by (simp add: print_results_def estimate_2f_def example_result_def)
  have h7: "?X = (fst ?X, snd ?X)" by simp
  from submit_workload_returns_first_success
    [where k = 0 and max_retries = 3 and s = ?s and self = ?self and w = example_workload
       and resp = "ok_response example_result" and body = example_result
       and r = "fst ?X" and tr = "snd ?X", OF h1 h2 h3 h4 h5 h6 h7]
  show ?thesis using h6 by simp
qed

text \<open>A 2xx response whose body is the JSON object \<open>{}\<close> is not returned: line 80 reads
  \<open>result['id']\<close>, and the KeyError leaves \<open>submit_workload\<close>.\<close>

theorem submit_workload_empty_object_counterexample:
  "fst (submit_workload (always_ok (JObj [])) (init default_api_base_url)
          example_workload 3 []) = Inl (KeyError ''id'')"
proof -
  let ?s = "always_ok (JObj [])"
  let ?c = "post_call (init default_api_base_url) example_workload"
  have t: "try_body (?s 0 ?c) = Inl (KeyError ''id'')"
    by (simp add: try_body_def print_results_def always_ok_def ok_response_def)
  then have "\<not> caught (?s 0 ?c)" by (simp add: caught_def)
  then have "submit_workload ?s (init default_api_base_url) example_workload 3 [] =
           (try_body (?s 0 ?c),
            HttpCall ?c # concat (map (\<lambda>i. [Sleep (2 ^ i), HttpCall ?c]) [0..<0]))"
    by (intro submit_workload_run [where s = ?s and k = 0]) simp_all
  with t show ?thesis by simp
qed

subsection \<open>A result or a failure\<close>

text \<open>
  Claim C4, for \<open>max_retries\<close> of at least one. \<open>submit_workload\<close> makes at least one call
  and at most \<open>max_retries\<close>, and its outcome is the outcome of the last call it made:
  either an exception, or the parsed body of a response that passed \<open>raise_for_status\<close>
  and the prints. There is no third case.
\<close>

theorem submit_workload_result_or_failure:
  assumes "1 \<le> max_retries"
    and "submit_workload s self w max_retries [] = (r, tr)"
  shows "calls_of tr \<noteq> [] \<and> int (length (calls_of tr)) \<le> max_retries \<and>
         r = try_body (s (length (calls_of tr) - 1) (post_call self w)) \<and>
         ((\<exists>e. r = Inl e) \<or>
          (\<exists>resp body. r = Inr body \<and>
             s (length (calls_of tr) - 1) (post_call self w) = Inr resp \<and>
             raise_for_status resp = None \<and> json resp = Inr body \<and>
             print_results body = None))"
proof -
  have pos: "0 < max_retries" using assms(1) by simp
  from submit_workload_cases [OF pos, of s self w]
  obtain k where k: "int k < max_retries"
    and run: "submit_workload s self w max_retries [] =
           (try_body (s k (post_call self w)),
            HttpCall (post_call self w) #
              concat (map (\<lambda>i. [Sleep (2 ^ i), HttpCall (post_call self w)]) [0..<k]))"
    by (elim exE conjE)
  from run assms(2) have r: "r = try_body (s k (post_call self w))"
    and tr: "tr = HttpCall (post_call self w) #
              concat (map (\<lambda>i. [Sleep (2 ^ i), HttpCall (post_call self w)]) [0..<k])"
    by simp_all
  have calls: "calls_of tr = replicate (Suc k) (post_call self w)"
    by (simp add: tr calls_of_backoff)
  then have len: "length (calls_of tr) - 1 = k" by simp
  have "(\<exists>e. r = Inl e) \<or>
          (\<exists>resp body. r = Inr body \<and> s k (post_call self w) = Inr resp \<and>
             raise_for_status resp = None \<and> json resp = Inr body \<and>
             print_results body = None)"
  proof (cases r)
    case (Inl e)
    then show ?thesis by blast
  next
    case (Inr body)
    with r have "try_body (s k (post_call self w)) = Inr body" by simp
    then show ?thesis unfolding try_body_Inr_iff using Inr by blast
  qed
  with r k show ?thesis unfolding len by (simp add: calls)
qed

text \<open>One timeout, then a success, with three attempts allowed.\<close>

theorem submit_workload_result_or_failure_witness:
  "(1::int) \<le> 3 \<and>
   calls_of (snd (submit_workload (fails_then_ok 1 example_result)
      (init default_api_base_url) example_workload 3 [])) \<noteq> [] \<and>
   int (length (calls_of (snd (submit_workload (fails_then_ok 1 example_result)
      (init default_api_base_url) example_workload 3 [])))) \<le> 3"
proof -
  let ?X = "submit_workload (fails_then_ok 1 example_result)
      (init default_api_base_url) example_workload 3 []"
  have h1: "(1::int) \<le> 3" by simp
  have h2: "?X = (fst ?X, snd ?X)" by simp
  from submit_workload_result_or_failure
    [where max_retries = 3 and s = "fails_then_ok 1 example_result"
       and self = "init default_api_base_url" and w = example_workload
       and r = "fst ?X" and tr = "snd ?X", OF h1 h2]
  show ?thesis by simp
qed

text \<open>With \<open>max_retries = -1\<close> the loop does not run and line 111 returns \<open>{}\<close>: a dict
  without an \<open>id\<close>, which no response supplied.\<close>

theorem submit_workload_default_result_counterexample:
  "submit_workload (always_ok example_result) (init default_api_base_url)
      example_workload (- 1) [] = (Inr (JObj []), []) \<and>
   print_results (JObj []) = Some (KeyError ''id'')"
  by (simp add: submit_workload_def submit_loop_done print_results_def)

subsection \<open>The optional notes\<close>

text \<open>
  Claim C5. The request body has the key \<open>notes\<close> exactly when the \<open>notes\<close> argument is
  a non-empty string, and then maps it to that string; with \<open>notes\<close> None or empty there
  is no such key. Every call \<open>submit_workload\<close> makes carries this body.
\<close>

theorem payload_notes:
  "map_of (payload w) ''notes'' =
     (case notes w of None \<Rightarrow> None | Some n \<Rightarrow> if n = [] then None else Some (JStr n)) \<and>
   has_key (JObj (payload w)) ''notes'' = (notes w \<noteq> None \<and> notes w \<noteq> Some []) \<and>
   (\<forall>c \<in> set (calls_of (snd (submit_workload s self w max_retries []))).
      json_body c = Some (JObj (payload w)))"
proof -
  have m: "map_of (payload w) ''notes'' =
     (case notes w of None \<Rightarrow> None | Some n \<Rightarrow> if n = [] then None else Some (JStr n))"
    by (simp add: payload_def split: option.split)
  have h: "has_key (JObj (payload w)) ''notes'' = (notes w \<noteq> None \<and> notes w \<noteq> Some [])"
    by (simp add: m split: option.split)
  have "json_body c = Some (JObj (payload w))"
    if "c \<in> set (calls_of (snd (submit_workload s self w max_retries [])))" for c
    using submit_workload_call_is_post [OF that] by (simp add: post_call_def)
  with m h show ?thesis by blast
qed

text \<open>The example workload has notes; without them, or with empty ones, the key is
  absent.\<close>

theorem payload_notes_witness:
  "map_of (payload example_workload) ''notes'' =
     Some (JStr ''Fine-tuning LLaMA 70B on proprietary dataset'') \<and>
   map_of (payload (example_workload\<lparr>notes := None\<rparr>)) ''notes'' = None \<and>
   \<not> has_key (JObj (payload (example_workload\<lparr>notes := Some []\<rparr>))) ''notes'' \<and>
   post_call (init default_api_base_url) example_workload \<in>
     set (calls_of (snd (submit_workload always_refused (init default_api_base_url)
       example_workload 3 []))) \<and>
   json_body (post_call (init default_api_base_url) example_workload) =
     Some (JObj (payload example_workload))"
proof -
  let ?self = "init default_api_base_url"
  note a = payload_notes [where w = example_workload and s = always_refused and self = ?self
      and max_retries = 3]
  note b = payload_notes [where w = "example_workload\<lparr>notes := None\<rparr>" and s = always_refused
      and self = ?self and max_retries = 3]
  note c = payload_notes [where w = "example_workload\<lparr>notes := Some []\<rparr>"
      and s = always_refused and self = ?self and max_retries = 3]
  have mem: "post_call ?self example_workload \<in>
     set (calls_of (snd (submit_workload always_refused ?self example_workload 3 [])))"
    by (rule submit_workload_first_call) simp
  have 1: "map_of (payload example_workload) ''notes'' =
     Some (JStr ''Fine-tuning LLaMA 70B on proprietary dataset'')"
    using a by (simp add: example_workload_def)
  have 2: "map_of (payload (example_workload\<lparr>notes := None\<rparr>)) ''notes'' = None"
    using b by simp
  have 3: "\<not> has_key (JObj (payload (example_workload\<lparr>notes := Some []\<rparr>))) ''notes''"
    using c by simp
  have 4: "json_body (post_call ?self example_workload) = Some (JObj (payload example_workload))"
    using a mem by blast
  from 1 2 3 mem 4 show ?thesis by blast
qed

subsection \<open>Reading and updating a workload\<close>

text \<open>
  Claim C6, with the failing statuses made precise. \<open>get_workload\<close> and \<open>update_status\<close>
  each add exactly one call to the trace, a GET or a PATCH, and nothing else: no second
  call and no sleep, whatever the endpoint answers. An exception raised by the call, or
  by \<open>raise_for_status\<close> on its response, is the outcome of the operation; otherwise the
  outcome is what \<open>json()\<close> gives. For a response of the requests library this means:
  a status from 400 to 599 makes the operation fail with the \<open>HTTPError\<close> of that status;
  a response of any other status, 2xx or not, is not failed by the status check, and
  the outcome is the parsed body or the exception of \<open>json()\<close>.
\<close>

theorem get_workload_update_status_single_call:
  "snd (get_workload s self workload_id tr) = tr @ [HttpCall (get_call self workload_id)] \<and>
   snd (update_status s self workload_id status tr) =
     tr @ [HttpCall (patch_call self workload_id status)] \<and>
   (\<forall>e. s (length (calls_of tr)) (get_call self workload_id) = Inl e \<or>
        (\<exists>resp. s (length (calls_of tr)) (get_call self workload_id) = Inr resp \<and>
           raise_for_status resp = Some e)
      \<longrightarrow> fst (get_workload s self workload_id tr) = Inl e) \<and>
   (\<forall>e. s (length (calls_of tr)) (patch_call self workload_id status) = Inl e \<or>
        (\<exists>resp. s (length (calls_of tr)) (patch_call self workload_id status) = Inr resp \<and>
           raise_for_status resp = Some e)
      \<longrightarrow> fst (update_status s self workload_id status tr) = Inl e) \<and>
   (\<forall>resp. s (length (calls_of tr)) (get_call self workload_id) = Inr resp \<and>
        raise_for_status resp = None
      \<longrightarrow> fst (get_workload s self workload_id tr) = json resp) \<and>
   (\<forall>resp. s (length (calls_of tr)) (patch_call self workload_id status) = Inr resp \<and>
        raise_for_status resp = None
      \<longrightarrow> fst (update_status s self workload_id status tr) = json resp) \<and>
   (\<forall>code parsed.
        s (length (calls_of tr)) (get_call self workload_id) = Inr (http_response code parsed)
      \<longrightarrow> fst (get_workload s self workload_id tr) =
            (if 400 \<le> code \<and> code < 600 then Inl (HTTPError code) else parsed)) \<and>
   (\<forall>code parsed.
        s (length (calls_of tr)) (patch_call self workload_id status) =
          Inr (http_response code parsed)
      \<longrightarrow> fst (update_status s self workload_id status tr) =
            (if 400 \<le> code \<and> code < 600 then Inl (HTTPError code) else parsed))"
proof -
  have trace: "snd (get_workload s self workload_id tr) =
      tr @ [HttpCall (get_call self workload_id)] \<and>
    snd (update_status s self workload_id status tr) =
      tr @ [HttpCall (patch_call self workload_id status)]"
    by (simp add: get_workload_def update_status_def request_def)
  have g: "fst (get_workload s self workload_id tr) =
      checked_json (s (length (calls_of tr)) (get_call self workload_id))"
    by (simp add: get_workload_def request_def)
  have u: "fst (update_status s self workload_id status tr) =
      checked_json (s (length (calls_of tr)) (patch_call self workload_id status))"
    by (simp add: update_status_def request_def)
  have raised: "checked_json r = Inl e"
    if "r = Inl e \<or> (\<exists>resp. r = Inr resp \<and> raise_for_status resp = Some e)" for r e
    using that by (auto simp: checked_json_def)
  have passed: "checked_json r = json resp"
    if "r = Inr resp \<and> raise_for_status resp = None" for r resp
    using that by (simp add: checked_json_def)
  have lib: "checked_json r =
      (if 400 \<le> code \<and> code < 600 then Inl (HTTPError code) else parsed)"
    if "r = Inr (http_response code parsed)" for r code parsed
    using that by (simp add: checked_json_def http_response_def)
  show ?thesis
    unfolding g u
    by (intro conjI allI impI conjunct1 [OF trace] conjunct2 [OF trace])
      (erule raised, erule raised, erule passed, erule passed, erule lib, erule lib)
qed

text \<open>A 503 on the GET, a refused connection on the PATCH, and a 404 of the library with
  a JSON body: one call each, and the error goes to the caller.\<close>

theorem get_workload_update_status_single_call_witness:
  "get_workload always_unavailable (init default_api_base_url) ''abc123'' [] =
     (Inl (HTTPError 503), [HttpCall (get_call (init default_api_base_url) ''abc123'')]) \<and>
   update_status always_refused (init default_api_base_url) ''abc123'' ''running'' [] =
     (Inl (ConnectionError ''connection refused''),
      [HttpCall (patch_call (init default_api_base_url) ''abc123'' ''running'')]) \<and>
   get_workload (always_status 404 (Inr (JObj [(''error'', JStr ''not found'')])))
       (init default_api_base_url) ''abc123'' [] =
     (Inl (HTTPError 404), [HttpCall (get_call (init default_api_base_url) ''abc123'')])"
proof -
  let ?self = "init default_api_base_url"
  let ?nf = "always_status 404 (Inr (JObj [(''error'', JStr ''not found'')]))"
  note g = get_workload_update_status_single_call
    [where s = always_unavailable and self = ?self and workload_id = "''abc123''"
       and status = "''running''" and tr = "[]"]
  note u = get_workload_update_status_single_call
    [where s = always_refused and self = ?self and workload_id = "''abc123''"
       and status = "''running''" and tr = "[]"]
  note n = get_workload_update_status_single_call
    [where s = ?nf and self = ?self and workload_id = "''abc123''"
       and status = "''running''" and tr = "[]"]
  have hg: "always_unavailable (length (calls_of [])) (get_call ?self ''abc123'') =
      Inr (error_response 503) \<and> raise_for_status (error_response 503) = Some (HTTPError 503)"
    by (simp add: always_unavailable_def error_response_def)
  have hu: "always_refused (length (calls_of [])) (patch_call ?self ''abc123'' ''running'') =
      Inl (ConnectionError ''connection refused'')"
    by (simp add: always_refused_def)
  have hn: "?nf (length (calls_of [])) (get_call ?self ''abc123'') =
      Inr (http_response 404 (Inr (JObj [(''error'', JStr ''not found'')])))"
    by (simp add: always_status_def)
  have 1: "fst (get_workload always_unavailable ?self ''abc123'' []) = Inl (HTTPError 503)"
    using g hg by blast
  have 2: "snd (get_workload always_unavailable ?self ''abc123'' []) =
      [HttpCall (get_call ?self ''abc123'')]"
    using g by simp
  have 3: "fst (update_status always_refused ?self ''abc123'' ''running'' []) =
      Inl (ConnectionError ''connection refused'')"
    using u hu by blast
  have 4: "snd (update_status always_refused ?self ''abc123'' ''running'' []) =
      [HttpCall (patch_call ?self ''abc123'' ''running'')]"
    using u by simp
  have "fst (get_workload ?nf ?self ''abc123'' []) =
      (if (400::nat) \<le> 404 \<and> (404::nat) < 600 then Inl (HTTPError 404)
       else Inr (JObj [(''error'', JStr ''not found'')]))"
    using n hn by blast
  then have 5: "fst (get_workload ?nf ?self ''abc123'' []) = Inl (HTTPError 404)"
    by simp
  have 6: "snd (get_workload ?nf ?self ''abc123'' []) = [HttpCall (get_call ?self ''abc123'')]"
    using n by simp
  from 1 2 3 4 5 6 show ?thesis by (simp add: prod_eq_iff)
qed

text \<open>Two responses that are not 2xx. A 300 with a JSON body and no redirect target:
  \<open>raise_for_status\<close> returns, and \<open>get_workload\<close> returns the body as its result. A 304
  without a body: \<open>update_status\<close> fails, but with the exception of \<open>json()\<close>, not with an
  HTTP error.\<close>

theorem get_workload_update_status_3xx_counterexample:
  "get_workload (always_status 300 (Inr example_result)) (init default_api_base_url)
       ''abc123'' [] =
     (Inr example_result, [HttpCall (get_call (init default_api_base_url) ''abc123'')]) \<and>
   update_status (always_status 304 (Inl (JSONDecodeError ''Expecting value'')))
       (init default_api_base_url) ''abc123'' ''running'' [] =
     (Inl (JSONDecodeError ''Expecting value''),
      [HttpCall (patch_call (init default_api_base_url) ''abc123'' ''running'')])"
  by (simp add: get_workload_def update_status_def request_def checked_json_def
      always_status_def http_response_def)

subsection \<open>The request of an attempt\<close>

text \<open>
  Claim C7. Every call \<open>submit_workload\<close> makes is a POST to the base URL followed by
  \<open>/api/workloads\<close>, with a timeout of 30 seconds and the payload as JSON body. The
  keys of the payload are \<open>model_size_gb\<close>, \<open>num_gpus\<close>, \<open>gpu_type\<close>, \<open>duration_hours\<close>,
  \<open>utilization_pct\<close>, \<open>use_smart_agent\<close>, in this order, followed by \<open>notes\<close> when the
  notes are a non-empty string.
\<close>

theorem submit_workload_post_shape:
  "(\<forall>c \<in> set (calls_of (snd (submit_workload s self w max_retries []))).
      verb c = POST \<and> url c = api_base_url self @ ''/api/workloads'' \<and>
      timeout c = Some 30 \<and> json_body c = Some (JObj (payload w))) \<and>
   map fst (payload w) =
     [''model_size_gb'', ''num_gpus'', ''gpu_type'', ''duration_hours'', ''utilization_pct'',
      ''use_smart_agent'']
     @ (if notes w = None \<or> notes w = Some [] then [] else [''notes''])"
proof -
  have "verb c = POST \<and> url c = api_base_url self @ ''/api/workloads'' \<and>
      timeout c = Some 30 \<and> json_body c = Some (JObj (payload w))"
    if "c \<in> set (calls_of (snd (submit_workload s self w max_retries [])))" for c
    using submit_workload_call_is_post [OF that] by (simp add: post_call_def)
  moreover have "map fst (payload w) =
     [''model_size_gb'', ''num_gpus'', ''gpu_type'', ''duration_hours'', ''utilization_pct'',
      ''use_smart_agent'']
     @ (if notes w = None \<or> notes w = Some [] then [] else [''notes''])"
    by (simp add: payload_def split: option.split)
  ultimately show ?thesis by blast
qed

text \<open>A client for a local server, submitting the example workload.\<close>

theorem submit_workload_post_shape_witness:
  "post_call (init ''http://localhost:3000/'') example_workload \<in>
     set (calls_of (snd (submit_workload always_unavailable (init ''http://localhost:3000/'')
       example_workload 3 []))) \<and>
   verb (post_call (init ''http://localhost:3000/'') example_workload) = POST \<and>
   url (post_call (init ''http://localhost:3000/'') example_workload) =
     ''http://localhost:3000/api/workloads'' \<and>
   timeout (post_call (init ''http://localhost:3000/'') example_workload) = Some 30 \<and>
   map fst (payload example_workload) =
     [''model_size_gb'', ''num_gpus'', ''gpu_type'', ''duration_hours'', ''utilization_pct'',
      ''use_smart_agent'', ''notes'']"
proof -
  let ?self = "init ''http://localhost:3000/''"
  note a = submit_workload_post_shape
    [where s = always_unavailable and self = ?self and w = example_workload
       and max_retries = 3]
  have mem: "post_call ?self example_workload \<in>
     set (calls_of (snd (submit_workload always_unavailable ?self example_workload 3 [])))"
    by (rule submit_workload_first_call) simp
  have base: "api_base_url ?self = ''http://localhost:3000''"
    by (simp add: init_def rstrip_def)
  have 1: "verb (post_call ?self example_workload) = POST \<and>
      url (post_call ?self example_workload) = api_base_url ?self @ ''/api/workloads'' \<and>
      timeout (post_call ?self example_workload) = Some 30"
    using a mem by blast
  have 2: "map fst (payload example_workload) =
     [''model_size_gb'', ''num_gpus'', ''gpu_type'', ''duration_hours'', ''utilization_pct'',
      ''use_smart_agent'', ''notes'']"
    using a by (simp add: example_workload_def)
  from 1 2 mem show ?thesis unfolding base by simp
qed

subsection \<open>Construction\<close>

text \<open>
  Claim C8. \<open>__init__\<close> strips the trailing slashes of the base URL: the stored URL is
  the given one without a final run of slashes, so it does not end in a slash;
  constructing from \<open>u + "/"\<close> gives the same client as constructing from \<open>u\<close>, hence the
  same POST, GET and PATCH requests; constructing from a stored URL changes nothing
  any more. The default base URL is \<open>https://aluminatiai.com\<close>.
\<close>

theorem init_strips_trailing_slash:
  "init (u @ ''/'') = init u \<and>
   init (api_base_url (init u)) = init u \<and>
   (api_base_url (init u) = [] \<or> last (api_base_url (init u)) \<noteq> CHR ''/'') \<and>
   (\<exists>n. u = api_base_url (init u) @ replicate n CHR ''/'') \<and>
   post_call (init (u @ ''/'')) w = post_call (init u) w \<and>
   get_call (init (u @ ''/'')) workload_id = get_call (init u) workload_id \<and>
   patch_call (init (u @ ''/'')) workload_id status = patch_call (init u) workload_id status \<and>
   api_base_url (init default_api_base_url) = ''https://aluminatiai.com''"
proof -
  have a: "init (u @ ''/'') = init u" by (simp add: init_def rstrip_snoc)
  have b: "init (api_base_url (init u)) = init u" by (simp add: init_def rstrip_idem)
  have c: "api_base_url (init u) = [] \<or> last (api_base_url (init u)) \<noteq> CHR ''/''"
    using rstrip_last [of "CHR ''/''" u] by (simp add: init_def)
  have d: "\<exists>n. u = api_base_url (init u) @ replicate n CHR ''/''"
    using rstrip_suffix [of u "CHR ''/''"] by (simp add: init_def)
  have e: "api_base_url (init default_api_base_url) = ''https://aluminatiai.com''"
    by (simp add: init_def rstrip_def default_api_base_url_def)
  from a b c d e show ?thesis by simp
qed

text \<open>With and without the final slash, a local server gets the same requests.\<close>

theorem init_strips_trailing_slash_witness:
  "init ''http://localhost:3000/'' = init ''http://localhost:3000'' \<and>
   api_base_url (init ''http://localhost:3000'') = ''http://localhost:3000'' \<and>
   url (get_call (init ''http://localhost:3000/'') ''abc123'') =
     ''http://localhost:3000/api/workloads/abc123''"
proof -
  note a = init_strips_trailing_slash
    [where u = "''http://localhost:3000''" and w = example_workload
       and workload_id = "''abc123''" and status = "''running''"]
  have 1: "init ''http://localhost:3000/'' = init ''http://localhost:3000''"
    using a by simp
  have 2: "api_base_url (init ''http://localhost:3000'') = ''http://localhost:3000''"
    by (simp add: init_def rstrip_def)
  have 3: "url (get_call (init ''http://localhost:3000/'') ''abc123'') =
     ''http://localhost:3000/api/workloads/abc123''"
    unfolding 1 by (simp add: get_call_def 2)
  from 1 2 3 show ?thesis by simp
qed

subsection \<open>No attempt at all\<close>

text \<open>
  Claim C9. When \<open>max_retries\<close> is zero or negative, \<open>range(max_retries)\<close> is empty:
  \<open>submit_workload\<close> makes no HTTP call (the trace is left as it was), raises nothing
  and returns the empty dict \<open>{}\<close> of line 111.
\<close>

theorem submit_workload_no_attempts:
  "max_retries \<le> 0 \<Longrightarrow>
     submit_workload s self w max_retries tr = (Inr (JObj []), tr) \<and>
     calls_of (snd (submit_workload s self w max_retries [])) = []"
  by (simp add: submit_workload_def submit_loop_done)

theorem submit_workload_no_attempts_witness:
  "(- 2 :: int) \<le> 0 \<and>
   submit_workload always_refused (init default_api_base_url) example_workload (- 2) [] =
     (Inr (JObj []), []) \<and>
   calls_of (snd (submit_workload always_refused (init default_api_base_url) example_workload
     (- 2) [])) = []"
proof -
  have h: "(- 2 :: int) \<le> 0" by simp
  from submit_workload_no_attempts
    [where max_retries = "- 2" and s = always_refused and self = "init default_api_base_url"
       and w = example_workload and tr = "[]", OF h]
  show ?thesis using h by (intro conjI) (rule h, erule conjunct1, erule conjunct2)
qed

subsection \<open>A response with a missing key\<close>

text \<open>
  Claim C10, with the kind of the error made precise. When attempt \<open>k\<close> gets a
  response that passes \<open>raise_for_status\<close> and whose parsed body lacks \<open>id\<close>, or
  \<open>estimates\<close>, or one of \<open>kwh\<close>, \<open>carbon_kg\<close>, \<open>cost_usd\<close> under \<open>estimates\<close>, the prints
  raise an exception that is not a \<open>RequestException\<close>: the handler does not catch it,
  it leaves \<open>submit_workload\<close>, this call is the last event of the trace and no result
  is returned. When the body is a JSON object, and \<open>estimates\<close> (if present) is an
  object whose \<open>kwh\<close>, \<open>carbon_kg\<close> and \<open>cost_usd\<close> (if present) are values that \<open>:.2f\<close>
  formats (a float, a bool, or an int of absolute value below \<open>2 ^ 1024 - 2 ^ 970\<close>),
  the exception is the KeyError of a missing key.
\<close>

theorem submit_workload_missing_key:
  assumes "int k < max_retries"
    and "\<forall>i<k. caught (s i (post_call self w))"
    and "s k (post_call self w) = Inr resp"
    and "raise_for_status resp = None"
    and "json resp = Inr body"
    and "\<not> has_key body ''id'' \<or> \<not> has_key body ''estimates'' \<or>
       (\<exists>est. subscript body ''estimates'' = Inr est \<and>
          (\<not> has_key est ''kwh'' \<or> \<not> has_key est ''carbon_kg'' \<or> \<not> has_key est ''cost_usd''))"
    and "submit_workload s self w max_retries [] = (r, tr)"
  shows "\<exists>e. r = Inl e \<and> print_results body = Some e \<and> \<not> is_RequestException e \<and>
           calls_of tr = replicate (Suc k) (post_call self w) \<and>
           last tr = HttpCall (post_call self w) \<and>
           ((\<exists>kvs. body = JObj kvs) \<and>
            (\<forall>est. subscript body ''estimates'' = Inr est \<longrightarrow>
               (\<exists>es. est = JObj es) \<and>
               (\<forall>key v. key \<in> {''kwh'', ''carbon_kg'', ''cost_usd''} \<and>
                   subscript est key = Inr v \<longrightarrow>
                     (\<exists>x. v = JFloat x) \<or> (\<exists>b. v = JBool b) \<or>
                     (\<exists>i. v = JInt i \<and> \<bar>i\<bar> < 2 ^ 1024 - 2 ^ 970)))
            \<longrightarrow> (\<exists>key \<in> {''id'', ''estimates'', ''kwh'', ''carbon_kg'', ''cost_usd''}.
                   e = KeyError key))"
proof -
  from assms(6) have "print_results body \<noteq> None"
    using print_results_None_keys [of body] by blast
  then obtain e where e: "print_results body = Some e" by blast
  then have nreq: "\<not> is_RequestException e" by (rule print_results_not_request)
  have t: "try_body (s k (post_call self w)) = Inl e"
    using assms(3-5) e by (simp add: try_body_def)
  with nreq have "\<not> caught (s k (post_call self w))" by (simp add: caught_def)
  then have "submit_workload s self w max_retries [] =
           (try_body (s k (post_call self w)),
            HttpCall (post_call self w) #
              concat (map (\<lambda>i. [Sleep (2 ^ i), HttpCall (post_call self w)]) [0..<k]))"
    using assms(1,2) by (intro submit_workload_run [where s = s and k = k]) auto
  with assms(7) t have r: "r = Inl e"
    and tr: "tr = HttpCall (post_call self w) #
              concat (map (\<lambda>i. [Sleep (2 ^ i), HttpCall (post_call self w)]) [0..<k])"
    by simp_all
  have calls: "calls_of tr = replicate (Suc k) (post_call self w)"
    by (simp add: tr calls_of_backoff)
  have lst: "last tr = HttpCall (post_call self w)"
    unfolding tr by (induction k) simp_all
  have key: "\<exists>key \<in> {''id'', ''estimates'', ''kwh'', ''carbon_kg'', ''cost_usd''}.
                   e = KeyError key"
    if obj: "\<exists>kvs. body = JObj kvs"
      and typed: "\<forall>est. subscript body ''estimates'' = Inr est \<longrightarrow>
               (\<exists>es. est = JObj es) \<and>
               (\<forall>key v. key \<in> {''kwh'', ''carbon_kg'', ''cost_usd''} \<and>
                   subscript est key = Inr v \<longrightarrow>
                     (\<exists>x. v = JFloat x) \<or> (\<exists>b. v = JBool b) \<or>
                     (\<exists>i. v = JInt i \<and> \<bar>i\<bar> < 2 ^ 1024 - 2 ^ 970))"
  proof -
    from obj obtain kvs where kvs: "body = JObj kvs" ..
    have typed': "\<forall>est. subscript body ''estimates'' = Inr est \<longrightarrow>
               (\<exists>es. est = JObj es) \<and>
               (\<forall>key v. key \<in> {''kwh'', ''carbon_kg'', ''cost_usd''} \<and>
                   subscript est key = Inr v \<longrightarrow> format_2f v = None)"
      using typed unfolding format_2f_None_iff .
    from print_results_KeyError [OF assms(6) kvs typed'] e show ?thesis by simp
  qed
  have imp: "(\<exists>kvs. body = JObj kvs) \<and>
            (\<forall>est. subscript body ''estimates'' = Inr est \<longrightarrow>
               (\<exists>es. est = JObj es) \<and>
               (\<forall>key v. key \<in> {''kwh'', ''carbon_kg'', ''cost_usd''} \<and>
                   subscript est key = Inr v \<longrightarrow>
                     (\<exists>x. v = JFloat x) \<or> (\<exists>b. v = JBool b) \<or>
                     (\<exists>i. v = JInt i \<and> \<bar>i\<bar> < 2 ^ 1024 - 2 ^ 970)))
            \<longrightarrow> (\<exists>key \<in> {''id'', ''estimates'', ''kwh'', ''carbon_kg'', ''cost_usd''}.
                   e = KeyError key)"
    by (intro impI, elim conjE, rule key)
  show ?thesis
    by (intro exI [of _ e] conjI r e nreq calls lst imp)
qed

text \<open>After one timeout, a response without \<open>cost_usd\<close>: KeyError, two calls in all.\<close>

theorem submit_workload_missing_key_witness:
  "int 1 < 3 \<and> \<not> has_key (JObj [(''kwh'', JFloat 1200.5), (''carbon_kg'', JFloat 600.2)])
      ''cost_usd'' \<and>
   fst (submit_workload (fails_then_ok 1 result_without_cost) (init default_api_base_url)
      example_workload 3 []) = Inl (KeyError ''cost_usd'') \<and>
   length (calls_of (snd (submit_workload (fails_then_ok 1 result_without_cost)
      (init default_api_base_url) example_workload 3 []))) = 2"
proof -
  let ?s = "fails_then_ok 1 result_without_cost"
  let ?self = "init default_api_base_url"
  let ?X = "submit_workload ?s ?self example_workload 3 []"
  let ?est = "JObj [(''kwh'', JFloat 1200.5), (''carbon_kg'', JFloat 600.2)]"
  have h1: "int 1 < 3" by simp
  have h2: "\<forall>i<1. caught (?s i (post_call ?self example_workload))"
    by (simp add: caught_def try_body_def fails_then_ok_def)
  have h3: "?s 1 (post_call ?self example_workload) = Inr (ok_response result_without_cost)"
    by (simp add: fails_then_ok_def)
  have h4: "raise_for_status (ok_response result_without_cost) = None"
    by (simp add: ok_response_def)
  have h5: "json (ok_response result_without_cost) = Inr result_without_cost"
    by (simp add: ok_response_def)
  have nk: "\<not> has_key ?est ''cost_usd''" by simp
  have sub: "subscript result_without_cost ''estimates'' = Inr ?est"
    by (simp add: result_without_cost_def)
  have h6: "\<not> has_key result_without_cost ''id'' \<or>
       \<not> has_key result_without_cost ''estimates'' \<or>
       (\<exists>est. subscript result_without_cost ''estimates'' = Inr est \<and>
          (\<not> has_key est ''kwh'' \<or> \<not> has_key est ''carbon_kg'' \<or> \<not> has_key est ''cost_usd''))"
    by (intro disjI2 exI [of _ ?est] conjI sub nk)
  have h7: "?X = (fst ?X, snd ?X)" by simp
  have p: "print_results result_without_cost = Some (KeyError ''cost_usd'')"
    by (simp add: print_results_def estimate_2f_def result_without_cost_def)
  from submit_workload_missing_key
    [where k = 1 and max_retries = 3 and s = ?s and self = ?self and w = example_workload
       and resp = "ok_response result_without_cost" and body = result_without_cost
       and r = "fst ?X" and tr = "snd ?X", OF h1 h2 h3 h4 h5 h6 h7]
  obtain e where "fst ?X = Inl e" "print_results result_without_cost = Some e"
    "calls_of (snd ?X) = replicate (Suc 1) (post_call ?self example_workload)"
    by (elim exE conjE)
  with p have "fst ?X = Inl (KeyError ''cost_usd'')" "length (calls_of (snd ?X)) = 2"
    by simp_all
  with h1 nk show ?thesis by (intro conjI)
qed

text \<open>A body that lacks \<open>carbon_kg\<close> and \<open>cost_usd\<close> and sends \<open>kwh\<close> as a string: line 82
  formats \<open>kwh\<close> with \<open>:.2f\<close> first, and the exception is a ValueError, not a lookup
  error.\<close>

theorem submit_workload_missing_key_counterexample:
  "\<not> has_key (JObj [(''kwh'', JStr ''1200.5'')]) ''carbon_kg'' \<and>
   subscript result_with_string_kwh ''estimates'' = Inr (JObj [(''kwh'', JStr ''1200.5'')]) \<and>
   fst (submit_workload (always_ok result_with_string_kwh) (init default_api_base_url)
          example_workload 3 []) =
     Inl (ValueError ''Unknown format code f for object of type str'')"
proof -
  let ?s = "always_ok result_with_string_kwh"
  let ?c = "post_call (init default_api_base_url) example_workload"
  have t: "try_body (?s 0 ?c) = Inl (ValueError ''Unknown format code f for object of type str'')"
    by (simp add: try_body_def print_results_def estimate_2f_def always_ok_def ok_response_def
        result_with_string_kwh_def)
  then have "\<not> caught (?s 0 ?c)" by (simp add: caught_def)
  then have "submit_workload ?s (init default_api_base_url) example_workload 3 [] =
           (try_body (?s 0 ?c),
            HttpCall ?c # concat (map (\<lambda>i. [Sleep (2 ^ i), HttpCall ?c]) [0..<0]))"
    by (intro submit_workload_run [where s = ?s and k = 0]) simp_all
  with t show ?thesis by (simp add: result_with_string_kwh_def)
qed

end
